theory Spec2Isabelle
  imports Complex_Main "HOL-Library.Sublist" "HOL-Library.Multiset"
begin

section \<open>Event Finder: data model (types.ts)\<close>

text \<open>
  The interfaces of \<^verbatim>\<open>types.ts\<close> as records. JavaScript strings are modelled as
  \<^typ>\<open>string\<close>, the coordinates (only ever copied, never computed with) as
  \<^typ>\<open>real\<close>. The optional field \<^verbatim>\<open>saveTheDate?: boolean\<close> is a
  \<^typ>\<open>bool option\<close>, \<^const>\<open>None\<close> standing for \<^verbatim>\<open>undefined\<close>.
  The field \<^verbatim>\<open>id\<close> is called \<open>id_ev\<close> here, \<^verbatim>\<open>program\<close> of the filter state
  \<open>program_f\<close>.
\<close>

datatype Language = En | Es

record ClinicEvent =
  id_ev :: string
  title :: string
  date :: string
  dateDisplay :: string
  time :: string
  location :: string
  city :: string
  address :: string
  program :: string
  lat :: real
  lng :: real
  description :: string
  saveTheDate :: "bool option"

datatype ContactMethod = Text | Email | NoContact

record RSVPPayload =
  eventId :: string
  eventTitle :: string
  eventDate :: string
  name :: string
  phone :: string
  email :: string
  contact_method :: ContactMethod
  sms_consent :: bool
  needs :: "string list"
  lang :: Language
  source :: string

record Filters =
  month :: string
  program_f :: string
  showPast :: bool

section \<open>The platform: strings, dates and the clock\<close>

subsection \<open>String operations\<close>

text \<open>\<^verbatim>\<open>s.includes(p)\<close> (named \<open>includes_str\<close>): \<open>p\<close> occurs in \<open>s\<close> as a contiguous block.\<close>

fun includes_str :: "string \<Rightarrow> string \<Rightarrow> bool" where
  "includes_str [] p = (p = [])"
| "includes_str (c # cs) p = (prefix p (c # cs) \<or> includes_str cs p)"

text \<open>
  \<^verbatim>\<open>s.toLowerCase()\<close> is the platform's case mapping, defined by the Unicode
  tables and not letter by letter. It is not modelled: every function below that
  needs it takes it as the parameter \<open>lc\<close>.
\<close>

subsection \<open>Calendar arithmetic\<close>

definition msPerDay :: int where
  "msPerDay = 86400000"

definition is_digit :: "char \<Rightarrow> bool" where
  "is_digit c = (48 \<le> (of_char c :: nat) \<and> (of_char c :: nat) \<le> 57)"

definition digit_val :: "char \<Rightarrow> int" where
  "digit_val c = int (of_char c) - 48"

definition is_leap :: "int \<Rightarrow> bool" where
  "is_leap y = (y mod 4 = 0 \<and> (y mod 100 \<noteq> 0 \<or> y mod 400 = 0))"

definition days_in_month :: "int \<Rightarrow> int \<Rightarrow> int" where
  "days_in_month y m =
     (if m = 2 then (if is_leap y then 29 else 28)
      else if m = 4 \<or> m = 6 \<or> m = 9 \<or> m = 11 then 30 else 31)"

text \<open>Day number of the first day of year \<open>y\<close>, counted from 1970-01-01
  (ECMAScript's \<^verbatim>\<open>DayFromYear\<close>).\<close>

definition day_from_year :: "int \<Rightarrow> int" where
  "day_from_year y =
     365 * (y - 1970) + (y - 1969) div 4 - (y - 1901) div 100 + (y - 1601) div 400"

fun days_before_month :: "int \<Rightarrow> nat \<Rightarrow> int" where
  "days_before_month y 0 = 0"
| "days_before_month y (Suc k) = days_before_month y k + days_in_month y (int (Suc k))"

text \<open>Day number of the calendar date \<open>y-m-d\<close> (ECMAScript's \<^verbatim>\<open>MakeDay\<close>).\<close>

definition make_day :: "int \<Rightarrow> int \<Rightarrow> int \<Rightarrow> int" where
  "make_day y m d = day_from_year y + days_before_month y (nat (m - 1)) + (d - 1)"

text \<open>
  The parser of \<^verbatim>\<open>Date\<close> on the date-only ISO form \<^verbatim>\<open>YYYY-MM-DD\<close>, as V8 has
  it: the month must be 1 to 12 and the day 1 to 31, and a day past the end of
  the month counts on into the next month (other engines reject it). Strings of
  any other shape are outside the model and read as \<^emph>\<open>Invalid Date\<close>.
\<close>

definition parse_ymd :: "string \<Rightarrow> (int \<times> int \<times> int) option" where
  "parse_ymd s =
     (if length s = 10 \<and> s ! 4 = CHR ''-'' \<and> s ! 7 = CHR ''-''
         \<and> list_all (\<lambda>i. is_digit (s ! i)) [0, 1, 2, 3, 5, 6, 8, 9]
      then
        (let y = 1000 * digit_val (s ! 0) + 100 * digit_val (s ! 1)
                 + 10 * digit_val (s ! 2) + digit_val (s ! 3);
             m = 10 * digit_val (s ! 5) + digit_val (s ! 6);
             d = 10 * digit_val (s ! 8) + digit_val (s ! 9)
         in if 1 \<le> m \<and> m \<le> 12 \<and> 1 \<le> d \<and> d \<le> 31
            then Some (y, m, d) else None)
      else None)"

text \<open>The inverse direction, from a day number to the calendar date.\<close>

definition civil_from_days :: "int \<Rightarrow> int \<times> int \<times> int" where
  "civil_from_days z =
     (let z' = z + 719468;
          era = z' div 146097;
          doe = z' - era * 146097;
          yoe = (doe - doe div 1460 + doe div 36524 - doe div 146096) div 365;
          doy = doe - (365 * yoe + yoe div 4 - yoe div 100);
          mp = (5 * doy + 2) div 153;
          d = doy - (153 * mp + 2) div 5 + 1;
          m = (if mp < 10 then mp + 3 else mp - 9);
          y = yoe + era * 400 + (if m \<le> 2 then 1 else 0)
      in (y, m, d))"

definition digit_char :: "int \<Rightarrow> char" where
  "digit_char n = char_of (nat (48 + n mod 10))"

fun pad_digits :: "nat \<Rightarrow> int \<Rightarrow> string" where
  "pad_digits 0 n = []"
| "pad_digits (Suc k) n = pad_digits k (n div 10) @ [digit_char n]"

subsection \<open>The clock and \<^verbatim>\<open>Date\<close>\<close>

text \<open>
  What \<^verbatim>\<open>new Date()\<close> reads: the instant \<open>now\<close>, in milliseconds since the epoch
  (UTC), and the offset of the browser's time zone in minutes, with the sign of
  \<^verbatim>\<open>getTimezoneOffset()\<close> (UTC minus local time; 480 for UTC-8). The offset is taken
  as one constant, so daylight-saving changes between two dates are not modelled.
\<close>

record Clock =
  now :: int
  tzOffset :: int

text \<open>\<^verbatim>\<open>new Date(s).getTime()\<close> for a date-only string: midnight UTC of that day;
  \<^const>\<open>None\<close> is \<^verbatim>\<open>NaN\<close>.\<close>

definition getTime_utc :: "string \<Rightarrow> int option" where
  "getTime_utc s =
     (case parse_ymd s of
        None \<Rightarrow> None
      | Some (y, m, d) \<Rightarrow> Some (make_day y m d * msPerDay))"

text \<open>\<^verbatim>\<open>new Date(s)\<close> for a string of the form \<^verbatim>\<open>YYYY-MM-DDT00:00:00\<close>, which has
  no zone designator and is therefore local time: midnight of that day in the
  browser's zone.\<close>

definition getTime_local :: "Clock \<Rightarrow> string \<Rightarrow> int option" where
  "getTime_local clk s =
     (if drop 10 s = ''T00:00:00'' then
        (case parse_ymd (take 10 s) of
           None \<Rightarrow> None
         | Some (y, m, d) \<Rightarrow> Some (make_day y m d * msPerDay + tzOffset clk * 60000))
      else None)"

text \<open>\<^verbatim>\<open>const today = new Date(); today.setHours(0, 0, 0, 0)\<close>: local midnight of the
  current local day.\<close>

definition local_day :: "Clock \<Rightarrow> int" where
  "local_day clk = (now clk - tzOffset clk * 60000) div msPerDay"

definition today_midnight :: "Clock \<Rightarrow> int" where
  "today_midnight clk = local_day clk * msPerDay + tzOffset clk * 60000"

text \<open>\<^verbatim>\<open>new Date().toISOString().split('T')[0]\<close>: the calendar date of \<open>now\<close> in UTC.
  Years outside 0..9999 are printed by \<^verbatim>\<open>toISOString\<close> with a sign and six digits.\<close>

definition utc_date_string :: "Clock \<Rightarrow> string" where
  "utc_date_string clk =
     (case civil_from_days (now clk div msPerDay) of
        (y, m, d) \<Rightarrow>
          (if 0 \<le> y \<and> y \<le> 9999 then pad_digits 4 y
           else (if y < 0 then ''-'' else ''+'') @ pad_digits 6 \<bar>y\<bar>)
          @ ''-'' @ pad_digits 2 m @ ''-'' @ pad_digits 2 d)"

section \<open>App.tsx: the filter engine\<close>

text \<open>\<^verbatim>\<open>isPast\<close> (App.tsx, lines 19-24). A comparison with \<^verbatim>\<open>NaN\<close> is false.\<close>

definition isPast :: "Clock \<Rightarrow> string \<Rightarrow> bool" where
  "isPast clk dateStr =
     (case getTime_local clk (dateStr @ ''T00:00:00'') of
        None \<Rightarrow> False
      | Some eventTime \<Rightarrow> eventTime < today_midnight clk)"

text \<open>The predicate of \<^verbatim>\<open>EVENTS.filter\<close> (lines 40-52). The empty string is the
  only falsy string, so \<^verbatim>\<open>!filters.month\<close> is \<open>month = []\<close>.\<close>

definition event_matches ::
  "(string \<Rightarrow> string) \<Rightarrow> Filters \<Rightarrow> string \<Rightarrow> Clock \<Rightarrow> ClinicEvent \<Rightarrow> bool" where
  "event_matches lc filters locationSearch clk event =
     (let monthMatch = (month filters = [] \<or> includes_str (date event) (''-'' @ month filters @ ''-''));
          programMatch = (program_f filters = [] \<or> program event = program_f filters);
          locQuery = lc locationSearch;
          locationMatch = (locationSearch = []
             \<or> includes_str (lc (city event)) locQuery
             \<or> includes_str (lc (address event)) locQuery);
          eventIsPast = isPast clk (date event);
          archivalMatch = (if showPast filters then eventIsPast else \<not> eventIsPast)
      in monthMatch \<and> programMatch \<and> locationMatch \<and> archivalMatch)"

text \<open>The comparator of line 53; a difference with \<^verbatim>\<open>NaN\<close> is \<^verbatim>\<open>NaN\<close>.\<close>

definition compare_dates :: "ClinicEvent \<Rightarrow> ClinicEvent \<Rightarrow> int option" where
  "compare_dates a b =
     (case (getTime_utc (date a), getTime_utc (date b)) of
        (Some ta, Some tb) \<Rightarrow> Some (ta - tb)
      | _ \<Rightarrow> None)"

text \<open>
  \<^verbatim>\<open>Array.prototype.sort\<close> with a comparator: a stable sort in which \<open>a\<close> stays
  before \<open>b\<close> unless the comparator is positive; a \<^verbatim>\<open>NaN\<close> result counts as 0.
  The model is an insertion sort driven by the comparator alone.
\<close>

definition sort_compare :: "('a \<Rightarrow> 'a \<Rightarrow> int option) \<Rightarrow> 'a \<Rightarrow> 'a \<Rightarrow> int" where
  "sort_compare cmp a b = (case cmp a b of None \<Rightarrow> 0 | Some v \<Rightarrow> v)"

fun insert_sorted :: "('a \<Rightarrow> 'a \<Rightarrow> int option) \<Rightarrow> 'a \<Rightarrow> 'a list \<Rightarrow> 'a list" where
  "insert_sorted cmp x [] = [x]"
| "insert_sorted cmp x (y # ys) =
     (if sort_compare cmp x y \<le> 0 then x # y # ys else y # insert_sorted cmp x ys)"

definition js_sort :: "('a \<Rightarrow> 'a \<Rightarrow> int option) \<Rightarrow> 'a list \<Rightarrow> 'a list" where
  "js_sort cmp xs = foldr (insert_sorted cmp) xs []"

text \<open>\<^verbatim>\<open>filteredEvents\<close> (lines 39-54), with the platform's \<^verbatim>\<open>toLowerCase\<close>, the
  catalog \<^verbatim>\<open>EVENTS\<close> and the clock as parameters.\<close>

definition filteredEvents ::
  "(string \<Rightarrow> string) \<Rightarrow> ClinicEvent list \<Rightarrow> Filters \<Rightarrow> string \<Rightarrow> Clock \<Rightarrow> ClinicEvent list" where
  "filteredEvents lc EVENTS filters locationSearch clk =
     js_sort compare_dates (filter (event_matches lc filters locationSearch clk) EVENTS)"

section \<open>App.tsx: selection, map and the RSVP gate\<close>

text \<open>
  The Leaflet map is an external library. Of its state the model keeps the
  viewport (center and zoom) and the markers placed on the map. A marker carries
  its position, the colour of its pin, whether it is drawn as selected, and the
  event its click handler captured. Markers are compared by value.
\<close>

record Viewport =
  center :: "real \<times> real"
  zoom :: real

text \<open>What \<^verbatim>\<open>PROGRAM_COLORS[event.program] || PROGRAM_COLORS['default']\<close> yields: one
  of the colour strings of the table, or, for a program label that names a
  member every object inherits, that member.\<close>

datatype PinColor = Hex string | Inherited string

record Marker =
  position :: "real \<times> real"
  pin_color :: PinColor
  pin_selected :: bool
  on_click :: ClinicEvent

record LeafletMap =
  viewport :: Viewport
  layers :: "Marker list"

text \<open>
  The state of the \<^verbatim>\<open>App\<close> component: its five \<^verbatim>\<open>useState\<close> cells (\<^verbatim>\<open>lang\<close> is
  called \<open>lang_st\<close>), the refs \<^verbatim>\<open>mapRef\<close> and \<^verbatim>\<open>markersRef\<close>, the list held by
  \<^verbatim>\<open>useMemo\<close> (\<open>filteredMemo\<close>), and the clock reading of the last render
  (\<open>renderedAt\<close>): what is on the page is what that render produced from the
  state, and it stays until the next render. The scrolling effect (lines 56-63),
  \<^verbatim>\<open>handleShare\<close> and the rendered text change none of this state and are left out.
\<close>

record AppState =
  lang_st :: Language
  selectedEvent :: "ClinicEvent option"
  isRSVPOpen :: bool
  locationSearch :: string
  filters :: Filters
  mapRef :: "LeafletMap option"
  markersRef :: "(string \<times> Marker) list"
  filteredMemo :: "ClinicEvent list"
  renderedAt :: Clock

definition PROGRAM_COLORS :: "(string \<times> string) list" where
  "PROGRAM_COLORS =
     [(''Unstoppable Workshop'', ''#233dff''),
      (''Unstoppable Wellness Meetup'', ''#7c3aed''),
      (''Community Walk & Run'', ''#059669''),
      (''Community Fair'', ''#ea580c''),
      (''Community Wellness'', ''#db2777''),
      (''default'', ''#4b5563'')]"

text \<open>The names every object literal inherits from \<^verbatim>\<open>Object.prototype\<close>; reading one
  of them from the table gives a function or an object, which is truthy.\<close>

definition object_prototype_members :: "string list" where
  "object_prototype_members =
     [''constructor'', ''hasOwnProperty'', ''isPrototypeOf'', ''propertyIsEnumerable'',
      ''toLocaleString'', ''toString'', ''valueOf'', ''__proto__'',
      ''__defineGetter__'', ''__defineSetter__'', ''__lookupGetter__'', ''__lookupSetter__'']"

definition program_color :: "string \<Rightarrow> PinColor" where
  "program_color p =
     (case map_of PROGRAM_COLORS p of
        Some c \<Rightarrow> Hex c
      | None \<Rightarrow>
          (if p \<in> set object_prototype_members then Inherited p
           else (case map_of PROGRAM_COLORS ''default'' of
                   Some c \<Rightarrow> Hex c
                 | None \<Rightarrow> Hex [])))"

text \<open>
  An object used as a dictionary: its own properties in the order of their
  creation. \<^verbatim>\<open>obj[key] = value\<close> overwrites in place or appends.
\<close>

fun dict_set :: "string \<Rightarrow> 'v \<Rightarrow> (string \<times> 'v) list \<Rightarrow> (string \<times> 'v) list" where
  "dict_set k v [] = [(k, v)]"
| "dict_set k v ((k', v') # kvs) =
     (if k' = k then (k, v) # kvs else (k', v') # dict_set k v kvs)"

text \<open>
  \<^verbatim>\<open>Object.values(obj)\<close> lists the properties whose key is an array index (the
  decimal numeral, without leading zero, of a number up to \<^verbatim>\<open>2^32 - 2\<close>) first, in
  ascending numeric order, and the others after them in the order of creation.
\<close>

definition digits_value :: "string \<Rightarrow> nat" where
  "digits_value k = foldl (\<lambda>n c. 10 * n + (of_char c - 48)) 0 k"

definition index_key :: "string \<Rightarrow> nat option" where
  "index_key k =
     (case k of
        [] \<Rightarrow> None
      | c # cs \<Rightarrow>
          (if list_all is_digit k \<and> (c \<noteq> CHR ''0'' \<or> cs = []) \<and> digits_value k \<le> 4294967294
           then Some (digits_value k) else None))"

definition index_order :: "string \<times> 'v \<Rightarrow> nat" where
  "index_order kv = (case index_key (fst kv) of None \<Rightarrow> 0 | Some n \<Rightarrow> n)"

definition dict_values :: "(string \<times> 'v) list \<Rightarrow> 'v list" where
  "dict_values kvs =
     map snd (sort_key index_order (filter (\<lambda>kv. index_key (fst kv) \<noteq> None) kvs)
              @ filter (\<lambda>kv. index_key (fst kv) = None) kvs)"

text \<open>
  The first render (lines 27-54) at clock reading \<open>clk\<close>: the initial values of
  the state cells and the first value of the memoised list. The parameter \<open>lc\<close>
  is the platform's \<^verbatim>\<open>toLowerCase\<close>, \<open>EVENTS\<close> the catalog.
\<close>

definition initial_app :: "(string \<Rightarrow> string) \<Rightarrow> ClinicEvent list \<Rightarrow> Clock \<Rightarrow> AppState" where
  "initial_app lc EVENTS clk =
     \<lparr>lang_st = En, selectedEvent = None, isRSVPOpen = False, locationSearch = [],
      filters = \<lparr>month = [], program_f = [], showPast = False\<rparr>,
      mapRef = None, markersRef = [],
      filteredMemo =
        filteredEvents lc EVENTS \<lparr>month = [], program_f = [], showPast = False\<rparr> [] clk,
      renderedAt = clk\<rparr>"

text \<open>The map-creation effect (lines 65-73), for a page whose container exists.\<close>

definition init_map :: "AppState \<Rightarrow> AppState" where
  "init_map s =
     (case mapRef s of
        None \<Rightarrow>
          s\<lparr>mapRef := Some \<lparr>viewport = \<lparr>center = (33.9719, - 118.2108), zoom = 10\<rparr>,
                             layers = []\<rparr>\<rparr>
      | Some m \<Rightarrow> s)"

text \<open>The marker built for one event in the loop of lines 81-102.
  \<^verbatim>\<open>selectedEvent?.id === event.id\<close> is false when nothing is selected.\<close>

definition make_marker :: "ClinicEvent option \<Rightarrow> ClinicEvent \<Rightarrow> Marker" where
  "make_marker sel event =
     (let isSelected = (case sel of None \<Rightarrow> False | Some se \<Rightarrow> id_ev se = id_ev event);
          color = program_color (program event)
      in \<lparr>position = (lat event, lng event), pin_color = color,
          pin_selected = isSelected, on_click = event\<rparr>)"

definition add_marker ::
  "ClinicEvent option \<Rightarrow> ClinicEvent \<Rightarrow> LeafletMap \<times> (string \<times> Marker) list
     \<Rightarrow> LeafletMap \<times> (string \<times> Marker) list" where
  "add_marker sel event acc =
     (case acc of (m, refs) \<Rightarrow>
        (let marker = make_marker sel event
         in (m\<lparr>layers := layers m @ [marker]\<rparr>, dict_set (id_ev event) marker refs)))"

text \<open>
  The reconciliation effect (lines 75-108) for the filtered list \<open>fe\<close>. The
  parameter \<open>fit\<close> is Leaflet's part of line 106: the viewport that
  \<^verbatim>\<open>fitBounds\<close> computes for the bounds of a group of markers, padded by the
  given fraction. The bounds of a group are the least and greatest latitude and
  longitude among its markers, so \<open>fit\<close> is given the set of their positions.
\<close>

definition reconcile ::
  "((real \<times> real) set \<Rightarrow> real \<Rightarrow> Viewport) \<Rightarrow> ClinicEvent list \<Rightarrow> AppState \<Rightarrow> AppState" where
  "reconcile fit fe s =
     (case mapRef s of
        None \<Rightarrow> s
      | Some m \<Rightarrow>
          (let m1 = m\<lparr>layers := fold remove1 (dict_values (markersRef s)) (layers m)\<rparr>;
               (m2, refs) = fold (add_marker (selectedEvent s)) fe (m1, []);
               m3 = (if length fe > 0 \<and> selectedEvent s = None
                     then m2\<lparr>viewport := fit (position ` set (dict_values refs)) 0.2\<rparr>
                     else m2)
           in s\<lparr>mapRef := Some m3, markersRef := refs\<rparr>))"

text \<open>The effect as the component runs it: on the memoised list.\<close>

definition reconcile_effect ::
  "((real \<times> real) set \<Rightarrow> real \<Rightarrow> Viewport) \<Rightarrow> AppState \<Rightarrow> AppState" where
  "reconcile_effect fit s = reconcile fit (filteredMemo s) s"

text \<open>
  A render at clock reading \<open>clk\<close>. \<^verbatim>\<open>useMemo\<close> computes the filtered list anew
  only when one of its dependencies \<^verbatim>\<open>[filters, locationSearch]\<close> has changed
  (\<open>recompute\<close>), and then with the clock of this render; otherwise the list
  computed earlier is kept.
\<close>

definition render ::
  "(string \<Rightarrow> string) \<Rightarrow> ClinicEvent list \<Rightarrow> Clock \<Rightarrow> bool \<Rightarrow> AppState \<Rightarrow> AppState" where
  "render lc EVENTS clk recompute s =
     s\<lparr>filteredMemo :=
         (if recompute then filteredEvents lc EVENTS (filters s) (locationSearch s) clk
          else filteredMemo s),
       renderedAt := clk\<rparr>"

text \<open>
  After a handler has run: React renders again when a state cell has changed;
  a \<^verbatim>\<open>setFilters\<close> call always stores a new object (\<open>replaced\<close>), the other
  setters are compared with the value held. After the render the
  reconciliation effect runs when one of its dependencies
  \<^verbatim>\<open>[filteredEvents, selectedEvent]\<close> has changed.
\<close>

definition after_handler ::
  "((real \<times> real) set \<Rightarrow> real \<Rightarrow> Viewport) \<Rightarrow> (string \<Rightarrow> string) \<Rightarrow> ClinicEvent list \<Rightarrow> Clock
     \<Rightarrow> bool \<Rightarrow> AppState \<Rightarrow> AppState \<Rightarrow> AppState" where
  "after_handler fit lc EVENTS clk replaced old s =
     (if replaced \<or> lang_st s \<noteq> lang_st old \<or> selectedEvent s \<noteq> selectedEvent old
         \<or> isRSVPOpen s \<noteq> isRSVPOpen old \<or> locationSearch s \<noteq> locationSearch old
      then
        (let recompute = (replaced \<or> locationSearch s \<noteq> locationSearch old);
             s1 = render lc EVENTS clk recompute s
         in if recompute \<or> selectedEvent s \<noteq> selectedEvent old
            then reconcile_effect fit s1 else s1)
      else s)"

text \<open>The state after the component has mounted at clock reading \<open>clk\<close>: first
  render, map created, markers placed.\<close>

definition mounted_app ::
  "((real \<times> real) set \<Rightarrow> real \<Rightarrow> Viewport) \<Rightarrow> (string \<Rightarrow> string) \<Rightarrow> ClinicEvent list \<Rightarrow> Clock
     \<Rightarrow> AppState" where
  "mounted_app fit lc EVENTS clk = reconcile_effect fit (init_map (initial_app lc EVENTS clk))"

text \<open>\<^verbatim>\<open>mapRef.current?.setView([lat, lng], z)\<close>.\<close>

definition setView :: "real \<times> real \<Rightarrow> real \<Rightarrow> AppState \<Rightarrow> AppState" where
  "setView c z s =
     (case mapRef s of
        None \<Rightarrow> s
      | Some m \<Rightarrow> s\<lparr>mapRef := Some (m\<lparr>viewport := \<lparr>center = c, zoom = z\<rparr>\<rparr>)\<rparr>)"

text \<open>The click handler of a marker (line 100).\<close>

definition marker_click :: "ClinicEvent \<Rightarrow> AppState \<Rightarrow> AppState" where
  "marker_click event s = s\<lparr>selectedEvent := Some event\<rparr>"

text \<open>\<^verbatim>\<open>handleSelectEvent\<close> (lines 110-113), the click handler of a list entry.\<close>

definition handleSelectEvent :: "ClinicEvent \<Rightarrow> AppState \<Rightarrow> AppState" where
  "handleSelectEvent e s = setView (lat e, lng e) 14 (s\<lparr>selectedEvent := Some e\<rparr>)"

text \<open>The condition of line 203 under which a render at clock reading \<open>clk\<close>
  puts the RSVP button on the page.\<close>

definition rsvp_button_shown :: "Clock \<Rightarrow> AppState \<Rightarrow> bool" where
  "rsvp_button_shown clk s =
     (case selectedEvent s of
        None \<Rightarrow> False
      | Some e \<Rightarrow> saveTheDate e \<noteq> Some True \<and> \<not> isPast clk (date e))"

text \<open>
  The user actions of \<^verbatim>\<open>App\<close> that change its state, each with the condition
  under which its control is on the page, and the handler it runs. The page is
  the one the last render produced: the list entries are those of the memoised
  list, the RSVP button is there when line 203 held at that render, and a marker
  can be clicked when it is on the map. The RSVP modal is drawn over the page,
  but the page's controls stay in the document while it is open and no handler
  looks at \<^verbatim>\<open>isRSVPOpen\<close>, so no action is disabled by the open modal.
\<close>

datatype Action =
    ClickMarker ClinicEvent
  | ClickListEntry ClinicEvent
  | CloseDetail
  | ViewMap
  | OpenRSVP
  | CloseRSVP
  | SetLang Language
  | SetSearch string
  | SetMonth string
  | SetProgram string
  | SetShowPast bool
  | ClearFilters

fun rendered :: "AppState \<Rightarrow> Action \<Rightarrow> bool" where
  "rendered s (ClickMarker e) =
     (case mapRef s of None \<Rightarrow> False | Some m \<Rightarrow> e \<in> on_click ` set (layers m))"
| "rendered s (ClickListEntry e) = (e \<in> set (filteredMemo s))"
| "rendered s CloseDetail = (selectedEvent s \<noteq> None)"
| "rendered s ViewMap = (selectedEvent s \<noteq> None)"
| "rendered s OpenRSVP = rsvp_button_shown (renderedAt s) s"
| "rendered s CloseRSVP = (isRSVPOpen s \<and> selectedEvent s \<noteq> None)"
| "rendered s ClearFilters =
     (month (filters s) \<noteq> [] \<or> program_f (filters s) \<noteq> [] \<or> locationSearch s \<noteq> [])"
| "rendered s _ = True"

fun handler :: "Action \<Rightarrow> AppState \<Rightarrow> AppState" where
  "handler (ClickMarker e) s = marker_click e s"
| "handler (ClickListEntry e) s = handleSelectEvent e s"
| "handler CloseDetail s = s\<lparr>selectedEvent := None\<rparr>"
| "handler ViewMap s =
     (case selectedEvent s of None \<Rightarrow> s | Some e \<Rightarrow> setView (lat e, lng e) 16 s)"
| "handler OpenRSVP s = s\<lparr>isRSVPOpen := True\<rparr>"
| "handler CloseRSVP s = s\<lparr>isRSVPOpen := False\<rparr>"
| "handler (SetLang l) s = s\<lparr>lang_st := l\<rparr>"
| "handler (SetSearch q) s = s\<lparr>locationSearch := q\<rparr>"
| "handler (SetMonth m) s = s\<lparr>filters := (filters s)\<lparr>month := m\<rparr>\<rparr>"
| "handler (SetProgram p) s = s\<lparr>filters := (filters s)\<lparr>program_f := p\<rparr>\<rparr>"
| "handler (SetShowPast b) s = s\<lparr>filters := (filters s)\<lparr>showPast := b\<rparr>\<rparr>"
| "handler ClearFilters s =
     s\<lparr>filters := \<lparr>month = [], program_f = [], showPast = False\<rparr>, locationSearch := []\<rparr>"

text \<open>The handlers that call \<^verbatim>\<open>setFilters\<close>.\<close>

fun replaces_filters :: "Action \<Rightarrow> bool" where
  "replaces_filters (SetMonth m) = True"
| "replaces_filters (SetProgram p) = True"
| "replaces_filters (SetShowPast b) = True"
| "replaces_filters ClearFilters = True"
| "replaces_filters _ = False"

text \<open>One user action at clock reading \<open>clk\<close>: it does nothing unless its control
  is on the page; then the handler runs, which checks nothing, followed by the
  render and its effect.\<close>

definition step ::
  "((real \<times> real) set \<Rightarrow> real \<Rightarrow> Viewport) \<Rightarrow> (string \<Rightarrow> string) \<Rightarrow> ClinicEvent list \<Rightarrow> Clock
     \<Rightarrow> Action \<Rightarrow> AppState \<Rightarrow> AppState" where
  "step fit lc EVENTS clk a s =
     (if rendered s a
      then after_handler fit lc EVENTS clk (replaces_filters a) s (handler a s) else s)"

text \<open>A sequence of user actions, each with the clock reading at which it
  happens.\<close>

fun run ::
  "((real \<times> real) set \<Rightarrow> real \<Rightarrow> Viewport) \<Rightarrow> (string \<Rightarrow> string) \<Rightarrow> ClinicEvent list
     \<Rightarrow> (Clock \<times> Action) list \<Rightarrow> AppState \<Rightarrow> AppState" where
  "run fit lc EVENTS [] s = s"
| "run fit lc EVENTS ((clk, a) # as) s = run fit lc EVENTS as (step fit lc EVENTS clk a s)"

section \<open>components/RSVPModal.tsx: the submission flow\<close>

datatype Status = Idle | Success | Error

text \<open>What \<^verbatim>\<open>new FormData(e.currentTarget)\<close> reads from the form.\<close>

record FormInput =
  in_name :: string
  in_phone :: string
  in_email :: string
  in_sms_consent :: bool

text \<open>The argument of \<^verbatim>\<open>fetch\<close>; the body is kept as the payload that
  \<^verbatim>\<open>JSON.stringify\<close> serialises.\<close>

record Request =
  req_url :: string
  req_method :: string
  req_mode :: string
  req_headers :: "(string \<times> string) list"
  req_body :: RSVPPayload

text \<open>How the promise returned by \<^verbatim>\<open>fetch\<close> settles: resolved with a response of
  some type \<open>'r\<close>, or rejected.\<close>

datatype 'r FetchOutcome = Resolved 'r | Rejected

text \<open>
  The four \<^verbatim>\<open>useState\<close> cells of the modal (\<^verbatim>\<open>needs\<close> is called \<open>needs_st\<close>),
  together with what the modal has done to its surroundings: the requests sent,
  the console lines written, the pending \<^verbatim>\<open>setTimeout(onClose, ms)\<close> timers with
  the milliseconds left, and whether the modal is still open (\<^verbatim>\<open>onClose\<close> is
  \<^verbatim>\<open>() => setIsRSVPOpen(false)\<close>, App.tsx line 342).
\<close>

record Flow =
  loading :: bool
  status :: Status
  needs_st :: "string list"
  contactMethod :: ContactMethod
  requests :: "Request list"
  console :: "string list"
  timers :: "nat list"
  isOpen :: bool

definition initial_flow :: Flow where
  "initial_flow =
     \<lparr>loading = False, status = Idle, needs_st = [], contactMethod = Text,
      requests = [], console = [], timers = [], isOpen = True\<rparr>"

text \<open>\<^verbatim>\<open>isToday\<close> (lines 24-27).\<close>

definition isToday :: "Clock \<Rightarrow> ClinicEvent \<Rightarrow> bool" where
  "isToday clk event = (let today = utc_date_string clk in date event = today)"

text \<open>The \<^verbatim>\<open>required\<close> attributes of the three inputs (lines 183, 188, 192).\<close>

record RequiredFields =
  name_required :: bool
  phone_required :: bool
  email_required :: bool

definition required_fields :: "Clock \<Rightarrow> ClinicEvent \<Rightarrow> RequiredFields" where
  "required_fields clk event =
     \<lparr>name_required = True, phone_required = True, email_required = (\<not> isToday clk event)\<rparr>"

text \<open>The browser submits the form only when every required input is filled in
  (its check of the shape of an email address is left out), and the submit
  button is disabled while \<^verbatim>\<open>loading\<close> (line 205).\<close>

definition form_valid :: "Clock \<Rightarrow> ClinicEvent \<Rightarrow> FormInput \<Rightarrow> bool" where
  "form_valid clk event form =
     (let r = required_fields clk event
      in (if name_required r then in_name form \<noteq> [] else True)
       \<and> (if phone_required r then in_phone form \<noteq> [] else True)
       \<and> (if email_required r then in_email form \<noteq> [] else True))"

definition can_submit :: "Clock \<Rightarrow> ClinicEvent \<Rightarrow> FormInput \<Rightarrow> Flow \<Rightarrow> bool" where
  "can_submit clk event form fl = (\<not> loading fl \<and> form_valid clk event form)"

text \<open>The payload of lines 35-47.\<close>

definition build_payload ::
  "ClinicEvent \<Rightarrow> Language \<Rightarrow> Clock \<Rightarrow> FormInput \<Rightarrow> Flow \<Rightarrow> RSVPPayload" where
  "build_payload event language clk form fl =
     \<lparr>eventId = id_ev event,
      eventTitle = title event,
      eventDate = dateDisplay event,
      name = in_name form,
      phone = in_phone form,
      email = in_email form,
      contact_method = contactMethod fl,
      sms_consent = in_sms_consent form,
      needs = needs_st fl,
      lang = language,
      source = (if isToday clk event then ''Live Event Check-In'' else ''Planning Ahead RSVP'')\<rparr>"

text \<open>
  \<^verbatim>\<open>handleSubmit\<close> (lines 29-65) in its two halves: up to the \<^verbatim>\<open>await\<close>, and from
  the settling of the promise on. The address \<^verbatim>\<open>GOOGLE_APPS_SCRIPT_URL\<close> is a
  constant of a module that is not part of the sources, hence a parameter.
\<close>

definition submit_start ::
  "string \<Rightarrow> ClinicEvent \<Rightarrow> Language \<Rightarrow> Clock \<Rightarrow> FormInput \<Rightarrow> Flow \<Rightarrow> Flow" where
  "submit_start url event language clk form fl =
     (let payload = build_payload event language clk form fl
      in fl\<lparr>loading := True, status := Idle,
            requests := requests fl @
              [\<lparr>req_url = url, req_method = ''POST'', req_mode = ''no-cors'',
                req_headers = [(''Content-Type'', ''application/json'')],
                req_body = payload\<rparr>]\<rparr>)"

definition submit_finish :: "'r FetchOutcome \<Rightarrow> Flow \<Rightarrow> Flow" where
  "submit_finish outcome fl =
     (case outcome of
        Resolved r \<Rightarrow> fl\<lparr>status := Success, timers := timers fl @ [2500], loading := False\<rparr>
      | Rejected \<Rightarrow>
          fl\<lparr>console := console fl @ [''Submission error:''], status := Error,
             loading := False\<rparr>)"

definition handleSubmit ::
  "string \<Rightarrow> ClinicEvent \<Rightarrow> Language \<Rightarrow> Clock \<Rightarrow> FormInput \<Rightarrow> 'r FetchOutcome \<Rightarrow> Flow \<Rightarrow> Flow" where
  "handleSubmit url event language clk form outcome fl =
     submit_finish outcome (submit_start url event language clk form fl)"

text \<open>The passing of \<open>dt\<close> milliseconds without user action: a timer that is due
  calls \<^verbatim>\<open>onClose\<close>.\<close>

definition advance :: "nat \<Rightarrow> Flow \<Rightarrow> Flow" where
  "advance dt fl =
     fl\<lparr>timers := map (\<lambda>t. t - dt) (filter (\<lambda>t. dt < t) (timers fl)),
        isOpen := (isOpen fl \<and> list_all (\<lambda>t. dt < t) (timers fl))\<rparr>"

text \<open>\<^verbatim>\<open>toggleNeed\<close> (lines 67-69): the state update, and the handler.\<close>

definition toggleNeed :: "string \<Rightarrow> string list \<Rightarrow> string list" where
  "toggleNeed val prev =
     (if val \<in> set prev then filter (\<lambda>v. v \<noteq> val) prev else prev @ [val])"

definition toggle_need :: "string \<Rightarrow> Flow \<Rightarrow> Flow" where
  "toggle_need val fl = fl\<lparr>needs_st := toggleNeed val (needs_st fl)\<rparr>"

definition setContactMethod :: "ContactMethod \<Rightarrow> Flow \<Rightarrow> Flow" where
  "setContactMethod c fl = fl\<lparr>contactMethod := c\<rparr>"

text \<open>What can happen to an open modal besides a submission and a click on its
  close button: time passes, a need is toggled, a contact method is chosen.\<close>

datatype FlowEvent = Elapse nat | ToggleNeed string | ChooseContact ContactMethod

fun flow_event :: "FlowEvent \<Rightarrow> Flow \<Rightarrow> Flow" where
  "flow_event (Elapse dt) fl = advance dt fl"
| "flow_event (ToggleNeed v) fl = toggle_need v fl"
| "flow_event (ChooseContact c) fl = setContactMethod c fl"

section \<open>The vocabulary of the specification\<close>

text \<open>An event date is valid when it is the ISO form of a day that exists; its
  day number is what "ascending by date" and "before today" compare.\<close>

definition valid_date :: "string \<Rightarrow> bool" where
  "valid_date s =
     (case parse_ymd s of None \<Rightarrow> False | Some (y, m, d) \<Rightarrow> d \<le> days_in_month y m)"

definition date_day :: "string \<Rightarrow> int" where
  "date_day s = (case parse_ymd s of None \<Rightarrow> 0 | Some (y, m, d) \<Rightarrow> make_day y m d)"

definition event_day :: "ClinicEvent \<Rightarrow> int" where
  "event_day e = date_day (date e)"

text \<open>The month component of an ISO date: its sixth and seventh characters.\<close>

definition month_component :: "string \<Rightarrow> string" where
  "month_component s = take 2 (drop 5 s)"

text \<open>\<open>q\<close> is a case-insensitive substring of \<open>s\<close> when \<open>q\<close> occurs in \<open>s\<close> once
  both are taken to lower case.\<close>

definition ci_substring :: "(string \<Rightarrow> string) \<Rightarrow> string \<Rightarrow> string \<Rightarrow> bool" where
  "ci_substring lc q s = sublist (lc q) (lc s)"

text \<open>The matching rule, conditions (a) to (d), for a reference day \<open>today\<close>.\<close>

definition spec_matches ::
  "(string \<Rightarrow> string) \<Rightarrow> Filters \<Rightarrow> string \<Rightarrow> int \<Rightarrow> ClinicEvent \<Rightarrow> bool" where
  "spec_matches lc fs q today e =
     ((month fs = [] \<or> month_component (date e) = month fs)
      \<and> (program_f fs = [] \<or> program e = program_f fs)
      \<and> (q = [] \<or> ci_substring lc q (city e) \<or> ci_substring lc q (address e))
      \<and> (showPast fs = (event_day e < today)))"


text \<open>The markers on the map are the ones the component keeps track of.\<close>

definition markers_tracked :: "AppState \<Rightarrow> bool" where
  "markers_tracked s =
     (case mapRef s of
        None \<Rightarrow> True
      | Some m \<Rightarrow> mset (layers m) = mset (dict_values (markersRef s)))"

text \<open>The states of the submission flow as the specification names them.\<close>

datatype Phase = IdlePhase | Submitting | SuccessPhase | ErrorPhase

definition phase :: "Flow \<Rightarrow> Phase" where
  "phase fl =
     (if loading fl then Submitting
      else (case status fl of Idle \<Rightarrow> IdlePhase | Success \<Rightarrow> SuccessPhase | Error \<Rightarrow> ErrorPhase))"

section \<open>Example data\<close>

text \<open>Three events in the shape of the catalog, two of them on the same day.\<close>

definition meetup_c :: ClinicEvent where
  "meetup_c =
     \<lparr>id_ev = ''meetup-c'', title = ''Meetup C'', date = ''2024-03-12'',
      dateDisplay = ''Tuesday, March 12'', time = ''9:00 AM'', location = ''Bixby Park'',
      city = ''Long Beach'', address = ''130 Cherry Ave, Long Beach, CA'',
      program = ''Unstoppable Wellness Meetup'', lat = 33.7657, lng = - 118.1677,
      description = ''Morning meetup'', saveTheDate = None\<rparr>"

definition workshop_a :: ClinicEvent where
  "workshop_a =
     \<lparr>id_ev = ''workshop-a'', title = ''Workshop A'', date = ''2024-01-05'',
      dateDisplay = ''Friday, January 5'', time = ''10:00 AM'', location = ''Main Library'',
      city = ''Long Beach'', address = ''200 W Broadway, Long Beach, CA'',
      program = ''Unstoppable Workshop'', lat = 33.7683, lng = - 118.1956,
      description = ''Workshop'', saveTheDate = None\<rparr>"

definition fair_b :: ClinicEvent where
  "fair_b =
     \<lparr>id_ev = ''fair-b'', title = ''Fair B'', date = ''2024-03-12'',
      dateDisplay = ''Tuesday, March 12'', time = ''5:00 PM'', location = ''Wilson Park'',
      city = ''Torrance'', address = ''2200 Crenshaw Blvd, Torrance, CA'',
      program = ''Community Fair'', lat = 33.8358, lng = - 118.3267,
      description = ''Fair'', saveTheDate = None\<rparr>"

definition example_catalog :: "ClinicEvent list" where
  "example_catalog = [meetup_c, workshop_a, fair_b]"

definition default_filters :: Filters where
  "default_filters = \<lparr>month = [], program_f = [], showPast = False\<rparr>"

text \<open>Noon of 2024-02-01 in Los Angeles (UTC-8).\<close>

definition noon_feb_1 :: Clock where
  "noon_feb_1 = \<lparr>now = 1706817600000, tzOffset = 480\<rparr>"

text \<open>17:30 of 2024-03-12 in Los Angeles (UTC-7), which is 00:30 of 2024-03-13 UTC;
  and the minutes before and after the following local midnight.\<close>

definition evening_mar_12 :: Clock where
  "evening_mar_12 = \<lparr>now = 1710289800000, tzOffset = 420\<rparr>"



text \<open>A stand-in for Leaflet's computation of a fitted viewport: the middle of the
  bounding box of the positions, at a fixed zoom.\<close>

definition example_fit :: "(real \<times> real) set \<Rightarrow> real \<Rightarrow> Viewport" where
  "example_fit ps r =
     (if ps = {} then \<lparr>center = (0, 0), zoom = 0\<rparr>
      else \<lparr>center = ((Min (fst ` ps) + Max (fst ` ps)) / 2,
                      (Min (snd ` ps) + Max (snd ` ps)) / 2),
            zoom = 11\<rparr>)"

text \<open>A stand-in for the platform's \<^verbatim>\<open>toLowerCase\<close>, which agrees with it on
  text in ASCII, as the example data is.\<close>

definition ascii_lower :: "string \<Rightarrow> string" where
  "ascii_lower s =
     map (\<lambda>c. if 65 \<le> (of_char c :: nat) \<and> (of_char c :: nat) \<le> 90
              then char_of ((of_char c :: nat) + 32) else c) s"

definition maria :: FormInput where
  "maria =
     \<lparr>in_name = ''Maria'', in_phone = ''555-9876'', in_email = ''maria@example.org'',
      in_sms_consent = True\<rparr>"

definition jane :: FormInput where
  "jane = \<lparr>in_name = ''Jane'', in_phone = ''555-1234'', in_email = [], in_sms_consent = False\<rparr>"

section \<open>The filter engine is the specified stable sort of the matching events\<close>

lemma includes_str_sublist: "includes_str s p = sublist p s"
  by (induction s) (auto simp: sublist_Cons_right)

lemma ci_substring_letterwise:
  "ci_substring (map f) q s \<longleftrightarrow> (\<exists>ys. sublist ys s \<and> map f ys = map f q)"
proof
  assume "ci_substring (map f) q s"
  then obtain ps ss where "map f s = ps @ map f q @ ss"
    by (auto simp: ci_substring_def sublist_def)
  then obtain us vs where a: "s = us @ vs" "map f q @ ss = map f vs"
    by (auto simp: map_eq_append_conv)
  from a(2) obtain ys ws where b: "vs = ys @ ws" "map f q = map f ys"
    by (auto simp: append_eq_map_conv)
  from a(1) b have "s = us @ ys @ ws" "map f ys = map f q"
    by simp_all
  then show "\<exists>ys. sublist ys s \<and> map f ys = map f q"
    unfolding sublist_def by blast
next
  assume "\<exists>ys. sublist ys s \<and> map f ys = map f q"
  then obtain ps ys ss where "s = ps @ ys @ ss" "map f ys = map f q"
    unfolding sublist_def by blast
  then have "map f s = map f ps @ map f q @ map f ss"
    by simp
  then show "ci_substring (map f) q s"
    unfolding ci_substring_def sublist_def by blast
qed

lemma valid_date_parsed:
  assumes "valid_date s"
  obtains y m d where "parse_ymd s = Some (y, m, d)"
  using assms by (auto simp: valid_date_def split: option.splits)

lemma valid_date_length: "valid_date s \<Longrightarrow> length s = 10"
  by (auto simp: valid_date_def parse_ymd_def split: option.splits if_splits)

lemma isPast_valid:
  assumes "valid_date s"
  shows "isPast clk s \<longleftrightarrow> date_day s < local_day clk"
proof -
  from assms obtain y m d where p: "parse_ymd s = Some (y, m, d)"
    by (rule valid_date_parsed)
  have "length s = 10" using assms by (rule valid_date_length)
  then have "getTime_local clk (s @ ''T00:00:00'') = Some (make_day y m d * msPerDay + tzOffset clk * 60000)"
    by (simp add: getTime_local_def p)
  then show ?thesis
    by (simp add: isPast_def today_midnight_def date_day_def p msPerDay_def)
qed

lemma sort_compare_valid:
  assumes "valid_date (date a)" "valid_date (date b)"
  shows "sort_compare compare_dates a b \<le> 0 \<longleftrightarrow> event_day a \<le> event_day b"
  using assms
  by (auto simp: sort_compare_def compare_dates_def getTime_utc_def date_day_def event_day_def
      msPerDay_def elim!: valid_date_parsed)

lemma insert_sorted_valid:
  assumes "valid_date (date x)" "\<forall>y\<in>set ys. valid_date (date y)"
  shows "insert_sorted compare_dates x ys = insort_key event_day x ys"
  using assms by (induction ys) (simp_all add: sort_compare_valid event_day_def)

lemma js_sort_valid:
  assumes "\<forall>x\<in>set xs. valid_date (date x)"
  shows "js_sort compare_dates xs = sort_key event_day xs"
  using assms
proof (induction xs)
  case Nil
  then show ?case by (simp add: js_sort_def)
next
  case (Cons x xs)
  then have ih: "js_sort compare_dates xs = sort_key event_day xs" by simp
  have "\<forall>y\<in>set (sort_key event_day xs). valid_date (date y)"
    using Cons.prems by simp
  then have "insert_sorted compare_dates x (sort_key event_day xs)
           = insort_key event_day x (sort_key event_day xs)"
    using Cons.prems by (intro insert_sorted_valid) simp_all
  with ih show ?case by (simp add: js_sort_def)
qed

lemma is_digit_not_dash: "is_digit c \<Longrightarrow> c \<noteq> CHR ''-''"
  by (auto simp: is_digit_def)

lemma prefix_snoc_iff:
  "prefix (m @ [c]) xs \<longleftrightarrow> length m < length xs \<and> take (length m) xs = m \<and> xs ! length m = c"
proof
  assume "prefix (m @ [c]) xs"
  then obtain zs where "xs = m @ c # zs" by (auto simp: prefix_def)
  then show "length m < length xs \<and> take (length m) xs = m \<and> xs ! length m = c"
    by simp
next
  assume a: "length m < length xs \<and> take (length m) xs = m \<and> xs ! length m = c"
  then have "xs = m @ c # drop (Suc (length m)) xs"
    by (metis append_take_drop_id Cons_nth_drop_Suc)
  then show "prefix (m @ [c]) xs"
    by (metis append.assoc append_Cons append_Nil prefixI)
qed

lemma valid_date_shape:
  assumes "valid_date s"
  obtains a b c d f g i j where
    "s = [a, b, c, d, CHR ''-'', f, g, CHR ''-'', i, j]"
    "is_digit a" "is_digit b" "is_digit c" "is_digit d"
    "is_digit f" "is_digit g" "is_digit i" "is_digit j"
proof -
  from assms have len: "length s = 10" and d: "s ! 4 = CHR ''-''" "s ! 7 = CHR ''-''"
    and dig: "list_all (\<lambda>i. is_digit (s ! i)) [0, 1, 2, 3, 5, 6, 8, 9]"
    by (auto simp: valid_date_def parse_ymd_def split: option.splits if_splits)
  from len obtain a b c d e f g h i j where s: "s = [a, b, c, d, e, f, g, h, i, j]"
    by (auto simp: numeral_eq_Suc length_Suc_conv)
  with d dig show ?thesis
    by (intro that[of a b c d f g i j]) (simp_all add: numeral_eq_Suc)
qed

lemma month_includes_valid:
  assumes "valid_date s" "m \<noteq> []"
  shows "includes_str s (''-'' @ m @ ''-'') \<longleftrightarrow> month_component s = m"
proof -
  from assms(1) obtain a b c d f g i j where
    s: "s = [a, b, c, d, CHR ''-'', f, g, CHR ''-'', i, j]"
    and dg: "a \<noteq> CHR ''-''" "b \<noteq> CHR ''-''" "c \<noteq> CHR ''-''" "d \<noteq> CHR ''-''"
       "f \<noteq> CHR ''-''" "g \<noteq> CHR ''-''" "i \<noteq> CHR ''-''" "j \<noteq> CHR ''-''"
    by (elim valid_date_shape) (auto dest: is_digit_not_dash)
  have mid: "prefix (m @ ''-'') [f, g, CHR ''-'', i, j] \<longleftrightarrow> m = [f, g]"
  proof
    assume "prefix (m @ ''-'') [f, g, CHR ''-'', i, j]"
    then have l: "length m < 5" and t: "take (length m) [f, g, CHR ''-'', i, j] = m"
      and n: "[f, g, CHR ''-'', i, j] ! length m = CHR ''-''"
      by (simp_all add: prefix_snoc_iff)
    from l consider "length m = 0" | "length m = 1" | "length m = 2" | "length m = 3" | "length m = 4"
      by linarith
    then have "length m = 2"
      using n dg by cases simp_all
    with t show "m = [f, g]" by (simp add: numeral_2_eq_2)
  qed simp
  have last: "\<not> prefix (m @ ''-'') [i, j]"
  proof
    assume "prefix (m @ ''-'') [i, j]"
    then have l: "length m < 2" and n: "[i, j] ! length m = CHR ''-''"
      by (simp_all add: prefix_snoc_iff)
    from l consider "length m = 0" | "length m = 1" by linarith
    then show False using n dg by cases simp_all
  qed
  show ?thesis
    using dg mid last by (simp add: s month_component_def eq_commute)
qed

lemma event_matches_valid:
  assumes "valid_date (date e)"
  shows "event_matches lc fs q clk e = spec_matches lc fs q (local_day clk) e"
proof -
  have m: "month fs \<noteq> [] \<Longrightarrow>
      includes_str (date e) (''-'' @ month fs @ ''-'') = (month_component (date e) = month fs)"
    using assms by (rule month_includes_valid)
  have p: "isPast clk (date e) = (event_day e < local_day clk)"
    using assms by (simp add: isPast_valid event_day_def)
  show ?thesis
    unfolding event_matches_def spec_matches_def Let_def ci_substring_def includes_str_sublist [symmetric] p
    using m by auto
qed

lemma filter_matches_valid:
  assumes "\<forall>e\<in>set xs. valid_date (date e)"
  shows "filter (event_matches lc fs q clk) xs = filter (spec_matches lc fs q (local_day clk)) xs"
  using assms by (intro filter_cong) (simp_all add: event_matches_valid)

lemma filteredEvents_sort_key:
  assumes "\<forall>e\<in>set catalog. valid_date (date e)"
  shows "filteredEvents lc catalog fs q clk
       = sort_key event_day (filter (event_matches lc fs q clk) catalog)"
  unfolding filteredEvents_def using assms by (intro js_sort_valid) simp

subsection \<open>The example catalog\<close>

lemma example_catalog_valid: "\<forall>e\<in>set example_catalog. valid_date (date e)"
  by (simp add: example_catalog_def meetup_c_def workshop_a_def fair_b_def valid_date_def
      parse_ymd_def is_digit_def digit_val_def days_in_month_def is_leap_def Let_def)

lemma example_upcoming:
  "filteredEvents ascii_lower example_catalog default_filters [] noon_feb_1 = [meetup_c, fair_b]"
  by code_simp

lemma example_past:
  "filteredEvents ascii_lower example_catalog (default_filters\<lparr>showPast := True\<rparr>) ''long'' noon_feb_1 = [workshop_a]"
  by code_simp

subsection \<open>Claims about the filter engine\<close>

text \<open>
  C1. For a catalog whose event dates are valid ISO dates, and for every filter
  state, search text and clock, whatever the platform's case mapping is, the
  output of the filter engine is the stable ascending sort by date of exactly
  the catalog events that satisfy the matching rule: month filter unset or equal
  to the month component of the date, program filter unset or equal to the
  program label, search text empty or a case-insensitive substring of the city
  or the address, and the event in the requested bucket, where past means a
  date strictly before the current local day. The output is sorted by date, is a
  permutation of the matching events, and events with equal dates keep their
  catalog order.
\<close>

theorem filter_engine_correct:
  assumes "\<forall>e\<in>set catalog. valid_date (date e)"
  shows "filteredEvents lc catalog fs q clk
           = sort_key event_day (filter (spec_matches lc fs q (local_day clk)) catalog)
       \<and> sorted (map event_day (filteredEvents lc catalog fs q clk))
       \<and> mset (filteredEvents lc catalog fs q clk)
           = mset (filter (spec_matches lc fs q (local_day clk)) catalog)
       \<and> (\<forall>k. filter (\<lambda>e. event_day e = k) (filteredEvents lc catalog fs q clk)
              = filter (\<lambda>e. event_day e = k)
                  (filter (spec_matches lc fs q (local_day clk)) catalog))"
proof -
  have eq: "filteredEvents lc catalog fs q clk
           = sort_key event_day (filter (spec_matches lc fs q (local_day clk)) catalog)"
    using assms by (simp add: filteredEvents_sort_key filter_matches_valid)
  show ?thesis
    unfolding eq by (simp add: sort_key_stable)
qed

theorem filter_engine_correct_witness:
  "valid_date (date meetup_c) \<and> valid_date (date workshop_a) \<and> valid_date (date fair_b)
   \<and> sort_key event_day
        (filter (spec_matches ascii_lower default_filters [] (local_day noon_feb_1)) example_catalog)
      = [meetup_c, fair_b]"
  using filter_engine_correct [OF example_catalog_valid, of ascii_lower default_filters "[]" noon_feb_1]
    example_catalog_valid example_upcoming
  by (simp add: example_catalog_def)

text \<open>
  C8. Filtering is idempotent: for a catalog whose event dates are valid ISO
  dates, applying the filter engine to its own output, with the same filter
  state, search text and clock, returns that output unchanged.
\<close>

theorem filter_engine_idempotent:
  assumes "\<forall>e\<in>set catalog. valid_date (date e)"
  shows "filteredEvents lc (filteredEvents lc catalog fs q clk) fs q clk
       = filteredEvents lc catalog fs q clk"
proof -
  let ?P = "event_matches lc fs q clk"
  let ?once = "sort_key event_day (filter ?P catalog)"
  have once: "filteredEvents lc catalog fs q clk = ?once"
    using assms by (rule filteredEvents_sort_key)
  have "\<forall>e\<in>set ?once. valid_date (date e)"
    using assms by simp
  then have "filteredEvents lc ?once fs q clk = sort_key event_day (filter ?P ?once)"
    by (rule filteredEvents_sort_key)
  also have "filter ?P ?once = sort_key event_day (filter ?P (filter ?P catalog))"
    by (rule filter_sort)
  also have "\<dots> = ?once"
    by simp
  also have "sort_key event_day ?once = ?once"
    by (rule sort_key_id_if_sorted) simp
  finally show ?thesis
    by (simp add: once)
qed

theorem filter_engine_idempotent_witness:
  "valid_date (date meetup_c) \<and> valid_date (date workshop_a) \<and> valid_date (date fair_b)
   \<and> filteredEvents ascii_lower [meetup_c, fair_b] default_filters [] noon_feb_1 = [meetup_c, fair_b]"
  using filter_engine_idempotent [OF example_catalog_valid, of ascii_lower default_filters "[]" noon_feb_1]
    example_catalog_valid example_upcoming
  by (simp add: example_catalog_def)

section \<open>The submission flow\<close>

lemma set_toggleNeed:
  "set (toggleNeed v xs) = (if v \<in> set xs then set xs - {v} else insert v (set xs))"
  by (auto simp: toggleNeed_def)

text \<open>
  C7. Toggling a tag twice returns the needs selection, as a set of tags, to what
  it was; toggling a selected tag removes it, toggling an unselected tag adds it,
  and no other tag is affected.
\<close>

theorem toggleNeed_involution:
  "set (needs_st (toggle_need v (toggle_need v fl))) = set (needs_st fl)
   \<and> (v \<in> set (needs_st (toggle_need v fl))) = (v \<notin> set (needs_st fl))
   \<and> set (needs_st (toggle_need v fl)) - {v} = set (needs_st fl) - {v}
   \<and> set (toggleNeed v (toggleNeed v xs)) = set xs"
  by (auto simp: toggle_need_def set_toggleNeed)

theorem toggleNeed_involution_witness:
  "set (toggleNeed ''screening'' (toggleNeed ''screening'' [''screening'', ''resources'']))
     = {''screening'', ''resources''}
   \<and> toggleNeed ''screening'' [''screening'', ''resources''] = [''resources'']
   \<and> toggleNeed ''screening'' [''resources''] = [''resources'', ''screening'']"
  using toggleNeed_involution [of "''screening''" initial_flow "[''screening'', ''resources'']"]
  by (simp add: toggleNeed_def)



lemma failed_attempt_schedules_nothing:
  "timers (handleSubmit url ev l clk form (Rejected :: 'c FetchOutcome) fl) = timers fl
   \<and> isOpen (handleSubmit url ev l clk form (Rejected :: 'c FetchOutcome) fl) = isOpen fl
   \<and> phase (handleSubmit url ev l clk form (Rejected :: 'c FetchOutcome) fl) = ErrorPhase"
  by (simp add: handleSubmit_def submit_finish_def submit_start_def phase_def Let_def)

lemma successful_attempt_schedules_close:
  "timers (handleSubmit url ev l clk form (Resolved r) fl) = timers fl @ [2500]
   \<and> phase (handleSubmit url ev l clk form (Resolved r) fl) = SuccessPhase
   \<and> \<not> loading (handleSubmit url ev l clk form (Resolved r) fl)"
  by (simp add: handleSubmit_def submit_finish_def submit_start_def phase_def Let_def)

text \<open>
  C6. A first submission succeeds and schedules the closing of the modal. One
  second later the form is still there and the submit button is enabled; a second
  submission fails, which puts the flow in the error state with the modal open.
  After another 1.5 seconds the timer of the first submission closes the modal,
  in the error state.
\<close>

theorem failed_resubmission_is_dismissed:
  "phase (handleSubmit ''https://intake.example'' fair_b En noon_feb_1 maria (Resolved ())
            initial_flow) = SuccessPhase
   \<and> can_submit noon_feb_1 fair_b maria
        (advance 1000
           (handleSubmit ''https://intake.example'' fair_b En noon_feb_1 maria (Resolved ())
              initial_flow))
   \<and> phase (handleSubmit ''https://intake.example'' fair_b En noon_feb_1 maria
              (Rejected :: unit FetchOutcome)
              (advance 1000
                 (handleSubmit ''https://intake.example'' fair_b En noon_feb_1 maria (Resolved ())
                    initial_flow))) = ErrorPhase
   \<and> isOpen (handleSubmit ''https://intake.example'' fair_b En noon_feb_1 maria
              (Rejected :: unit FetchOutcome)
              (advance 1000
                 (handleSubmit ''https://intake.example'' fair_b En noon_feb_1 maria (Resolved ())
                    initial_flow)))
   \<and> phase (advance 1500
        (handleSubmit ''https://intake.example'' fair_b En noon_feb_1 maria
           (Rejected :: unit FetchOutcome)
           (advance 1000
              (handleSubmit ''https://intake.example'' fair_b En noon_feb_1 maria (Resolved ())
                 initial_flow)))) = ErrorPhase
   \<and> \<not> isOpen (advance 1500
        (handleSubmit ''https://intake.example'' fair_b En noon_feb_1 maria
           (Rejected :: unit FetchOutcome)
           (advance 1000
              (handleSubmit ''https://intake.example'' fair_b En noon_feb_1 maria (Resolved ())
                 initial_flow))))"
  by code_simp

lemma required_fields_by_utc_date:
  "name_required (required_fields clk e) \<and> phone_required (required_fields clk e)
   \<and> email_required (required_fields clk e) = (date e \<noteq> utc_date_string clk)"
  by (simp add: required_fields_def isToday_def)

lemma source_by_utc_date:
  "source (build_payload e l clk form fl)
     = (if date e = utc_date_string clk then ''Live Event Check-In'' else ''Planning Ahead RSVP'')"
  by (simp add: build_payload_def isToday_def)

text \<open>
  C4. On the evening of 2024-03-12 in Los Angeles an event dated 2024-03-12 is
  dated today and is not past, yet \<^verbatim>\<open>isToday\<close>, which reads the UTC date, is
  false: the email field is required and the form of the specification's example
  is rejected.
\<close>

theorem email_required_on_the_event_day:
  "event_day fair_b = local_day evening_mar_12
   \<and> civil_from_days (local_day evening_mar_12) = (2024, 3, 12)
   \<and> \<not> isPast evening_mar_12 (date fair_b)
   \<and> utc_date_string evening_mar_12 = ''2024-03-13''
   \<and> \<not> isToday evening_mar_12 fair_b
   \<and> email_required (required_fields evening_mar_12 fair_b)
   \<and> \<not> form_valid evening_mar_12 fair_b jane"
  by code_simp

text \<open>
  C5. In the same situation the payload of a submission carries the
  advance-RSVP value in its \<^verbatim>\<open>source\<close> field, although the event's date is the
  current local date.
\<close>

theorem source_on_the_event_day:
  "event_day fair_b = local_day evening_mar_12
   \<and> source (build_payload fair_b En evening_mar_12 jane initial_flow) = ''Planning Ahead RSVP''"
  by code_simp

section \<open>Markers, viewport and selection\<close>

lemma fold_add_marker:
  "fold (add_marker sel) fe (m, refs)
     = (m\<lparr>layers := layers m @ map (make_marker sel) fe\<rparr>,
        fold (\<lambda>e. dict_set (id_ev e) (make_marker sel e)) fe refs)"
  by (induction fe arbitrary: m refs) (simp_all add: add_marker_def Let_def)

lemma dict_set_fresh: "k \<notin> fst ` set kvs \<Longrightarrow> dict_set k v kvs = kvs @ [(k, v)]"
  by (induction kvs) auto

lemma fold_dict_set_distinct:
  assumes "distinct (map key xs)" "key ` set xs \<inter> fst ` set refs = {}"
  shows "fold (\<lambda>e. dict_set (key e) (val e)) xs refs = refs @ map (\<lambda>e. (key e, val e)) xs"
  using assms
proof (induction xs arbitrary: refs)
  case Nil
  then show ?case by simp
next
  case (Cons x xs)
  from Cons.prems have fresh: "key x \<notin> fst ` set refs" by auto
  have "key ` set xs \<inter> fst ` set (refs @ [(key x, val x)]) = {}"
    using Cons.prems by auto
  with Cons.prems Cons.IH [of "refs @ [(key x, val x)]"] fresh
  show ?case by (simp add: dict_set_fresh)
qed

lemma mset_dict_values: "mset (dict_values kvs) = mset (map snd kvs)"
proof -
  let ?P = "\<lambda>kv. index_key (fst kv) \<noteq> None"
  have "mset (sort_key index_order (filter ?P kvs) @ filter (\<lambda>kv. \<not> ?P kv) kvs) = mset kvs"
    by simp
  then have "mset (map snd (sort_key index_order (filter ?P kvs) @ filter (\<lambda>kv. \<not> ?P kv) kvs))
           = mset (map snd kvs)"
    by (metis mset_map)
  then show ?thesis
    by (simp add: dict_values_def)
qed

lemma set_dict_values: "set (dict_values kvs) = snd ` set kvs"
  using mset_dict_values [of kvs] by (metis set_mset_mset set_map)

lemma fold_remove1_all:
  assumes "mset xs = mset ys"
  shows "fold remove1 xs ys = []"
  using assms
proof (induction xs arbitrary: ys)
  case Nil
  then show ?case by simp
next
  case (Cons x xs)
  then have "mset xs = mset (remove1 x ys)"
    by (metis add_mset_remove_trivial mset.simps(2) mset_remove1)
  with Cons.IH show ?case by simp
qed

lemma mset_insert_sorted: "mset (insert_sorted cmp x ys) = add_mset x (mset ys)"
  by (induction ys) simp_all

lemma mset_js_sort: "mset (js_sort cmp xs) = mset xs"
  by (induction xs) (simp_all add: js_sort_def mset_insert_sorted)

lemma distinct_ids_filteredEvents:
  assumes "distinct (map id_ev EVENTS)"
  shows "distinct (map id_ev (filteredEvents lc EVENTS fs q clk))"
proof -
  let ?P = "event_matches lc fs q clk"
  have "mset (map id_ev (filteredEvents lc EVENTS fs q clk)) = mset (map id_ev (filter ?P EVENTS))"
    by (simp add: filteredEvents_def mset_js_sort)
  moreover have "distinct (map id_ev (filter ?P EVENTS))"
    using assms by (rule distinct_map_filter)
  ultimately show ?thesis
    by (metis mset_eq_imp_distinct_iff)
qed

lemma positions_of_markers:
  "position ` set (map (make_marker sel) fe) = (\<lambda>e. (lat e, lng e)) ` set fe"
  by (auto simp: make_marker_def Let_def image_iff)

lemma positions_of_tracked:
  "position ` set (dict_values (map (\<lambda>e. (id_ev e, make_marker sel e)) fe))
     = (\<lambda>e. (lat e, lng e)) ` set fe"
  by (auto simp: set_dict_values make_marker_def Let_def image_iff)

lemma reconcile_result:
  assumes m: "mapRef s = Some m" and t: "markers_tracked s" and d: "distinct (map id_ev fe)"
  shows "reconcile fit fe s
       = s\<lparr>mapRef := Some
              \<lparr>viewport = (if fe \<noteq> [] \<and> selectedEvent s = None
                            then fit ((\<lambda>e. (lat e, lng e)) ` set fe) 0.2 else viewport m),
               layers = map (make_marker (selectedEvent s)) fe\<rparr>,
            markersRef := map (\<lambda>e. (id_ev e, make_marker (selectedEvent s) e)) fe\<rparr>"
proof -
  let ?mk = "make_marker (selectedEvent s)"
  have gone: "fold remove1 (dict_values (markersRef s)) (layers m) = []"
    using t m by (intro fold_remove1_all) (simp add: markers_tracked_def)
  have refs: "fold (\<lambda>e. dict_set (id_ev e) (?mk e)) fe [] = map (\<lambda>e. (id_ev e, ?mk e)) fe"
    using fold_dict_set_distinct [of id_ev fe "[]" ?mk] d by simp
  have "reconcile fit fe s
      = s\<lparr>mapRef := Some
             ((if fe \<noteq> [] \<and> selectedEvent s = None
               then (\<lambda>x. x\<lparr>viewport := fit ((\<lambda>e. (lat e, lng e)) ` set fe) 0.2\<rparr>) else (\<lambda>x. x))
                (m\<lparr>layers := map ?mk fe\<rparr>)),
           markersRef := map (\<lambda>e. (id_ev e, ?mk e)) fe\<rparr>"
    using m by (simp add: reconcile_def fold_add_marker Let_def gone refs positions_of_tracked)
  also have "(if fe \<noteq> [] \<and> selectedEvent s = None
               then (\<lambda>x. x\<lparr>viewport := fit ((\<lambda>e. (lat e, lng e)) ` set fe) 0.2\<rparr>) else (\<lambda>x. x))
                (m\<lparr>layers := map ?mk fe\<rparr>)
      = \<lparr>viewport = (if fe \<noteq> [] \<and> selectedEvent s = None
                            then fit ((\<lambda>e. (lat e, lng e)) ` set fe) 0.2 else viewport m),
               layers = map ?mk fe\<rparr>"
    by simp
  finally show ?thesis .
qed

lemma reconcile_no_fit:
  assumes "fe = [] \<or> selectedEvent s \<noteq> None"
  shows "reconcile fit fe s = reconcile fit' fe s"
  using assms
  by (cases "mapRef s") (auto simp: reconcile_def fold_add_marker Let_def)

lemma reconcile_viewport_kept:
  assumes "fe = [] \<or> selectedEvent s \<noteq> None"
  shows "map_option viewport (mapRef (reconcile fit fe s)) = map_option viewport (mapRef s)"
  using assms
  by (cases "mapRef s") (auto simp: reconcile_def fold_add_marker Let_def)

text \<open>
  C9. Take a reconciliation pass over the filtered list of a catalog with
  distinct ids, in a state whose map carries exactly the markers the component
  keeps track of. After the pass the markers on the map are exactly those of
  the filtered events, and they are the tracked ones again. When the filtered
  list is empty, the viewport is as before and the result does not depend on the
  fitting function, so no reframe takes place. When the filtered list is not
  empty and nothing is selected, the viewport is the one fitted to the positions
  of all markers now on the map, padded by 0.2.
\<close>

theorem reconcile_viewport:
  assumes "filteredMemo s = filteredEvents lc EVENTS fs q clk"
    and "distinct (map id_ev EVENTS)"
    and "markers_tracked s"
    and "mapRef s = Some m"
  shows "\<exists>m'. mapRef (reconcile_effect fit s) = Some m'
           \<and> layers m' = map (make_marker (selectedEvent s)) (filteredMemo s)
           \<and> markers_tracked (reconcile_effect fit s)
           \<and> (filteredMemo s = [] \<longrightarrow>
                viewport m' = viewport m
                \<and> reconcile_effect fit s = reconcile_effect fit' s)
           \<and> (filteredMemo s \<noteq> [] \<and> selectedEvent s = None \<longrightarrow>
                viewport m' = fit (position ` set (layers m')) 0.2
                \<and> position ` set (layers m') = (\<lambda>e. (lat e, lng e)) ` set (filteredMemo s))"
proof -
  let ?fe = "filteredMemo s"
  let ?mk = "make_marker (selectedEvent s)"
  let ?m' = "\<lparr>viewport = (if ?fe \<noteq> [] \<and> selectedEvent s = None
                            then fit ((\<lambda>e. (lat e, lng e)) ` set ?fe) 0.2 else viewport m),
              layers = map ?mk ?fe\<rparr>"
  have d: "distinct (map id_ev ?fe)"
    using assms(1,2) by (simp add: distinct_ids_filteredEvents)
  have r: "reconcile_effect fit s
         = s\<lparr>mapRef := Some ?m', markersRef := map (\<lambda>e. (id_ev e, ?mk e)) ?fe\<rparr>"
    unfolding reconcile_effect_def using assms(4,3) d by (rule reconcile_result)
  have 1: "mapRef (reconcile_effect fit s) = Some ?m'"
    by (simp add: r)
  have 2: "layers ?m' = map ?mk ?fe"
    by simp
  have 3: "markers_tracked (reconcile_effect fit s)"
    by (simp add: r markers_tracked_def mset_dict_values comp_def)
  have 4: "?fe = [] \<longrightarrow> viewport ?m' = viewport m
        \<and> reconcile_effect fit s = reconcile_effect fit' s"
    by (simp add: reconcile_effect_def reconcile_no_fit)
  have 5: "?fe \<noteq> [] \<and> selectedEvent s = None \<longrightarrow>
        viewport ?m' = fit (position ` set (layers ?m')) 0.2
        \<and> position ` set (layers ?m') = (\<lambda>e. (lat e, lng e)) ` set ?fe"
    by (simp add: positions_of_markers del: set_map)
  from 1 2 3 4 5 show ?thesis by blast
qed

theorem reconcile_viewport_witness:
  "distinct (map id_ev example_catalog)
   \<and> markers_tracked (init_map (initial_app ascii_lower example_catalog noon_feb_1))
   \<and> map_option layers
        (mapRef (reconcile_effect example_fit
           (init_map (initial_app ascii_lower example_catalog noon_feb_1))))
      = Some [make_marker None meetup_c, make_marker None fair_b]
   \<and> map_option viewport
        (mapRef (reconcile_effect example_fit
           (init_map (initial_app ascii_lower example_catalog noon_feb_1))))
      = Some (example_fit {(33.7657, - 118.1677), (33.8358, - 118.3267)} 0.2)"
proof -
  let ?s = "init_map (initial_app ascii_lower example_catalog noon_feb_1)"
  have memo: "filteredMemo ?s
      = filteredEvents ascii_lower example_catalog
          \<lparr>month = [], program_f = [], showPast = False\<rparr> [] noon_feb_1"
    by (simp add: init_map_def initial_app_def)
  have v: "filteredMemo ?s = [meetup_c, fair_b]"
    unfolding memo by code_simp
  have n: "selectedEvent ?s = None"
    by (simp add: init_map_def initial_app_def)
  have d: "distinct (map id_ev example_catalog)"
    by (simp add: example_catalog_def meetup_c_def workshop_a_def fair_b_def)
  have m: "mapRef ?s = Some \<lparr>viewport = \<lparr>center = (33.9719, - 118.2108), zoom = 10\<rparr>, layers = []\<rparr>"
    by (simp add: init_map_def initial_app_def)
  have t: "markers_tracked ?s"
    by (simp add: markers_tracked_def dict_values_def init_map_def initial_app_def)
  from reconcile_viewport [OF memo d t m, of example_fit example_fit]
  obtain m' where r: "mapRef (reconcile_effect example_fit ?s) = Some m'"
      "layers m' = map (make_marker (selectedEvent ?s)) (filteredMemo ?s)"
      "filteredMemo ?s \<noteq> [] \<and> selectedEvent ?s = None \<longrightarrow>
         viewport m' = example_fit (position ` set (layers m')) 0.2
         \<and> position ` set (layers m') = (\<lambda>e. (lat e, lng e)) ` set (filteredMemo ?s)"
    by blast
  from r(2) have l: "layers m' = [make_marker None meetup_c, make_marker None fair_b]"
    unfolding v n by simp
  from r(3) have "viewport m' = example_fit ((\<lambda>e. (lat e, lng e)) ` set (filteredMemo ?s)) 0.2"
    unfolding v n by simp
  then have w: "viewport m' = example_fit {(33.7657, - 118.1677), (33.8358, - 118.3267)} 0.2"
    unfolding v by (simp add: meetup_c_def fair_b_def)
  from d t r(1) l w show ?thesis by simp
qed

lemma setView_fields [simp]:
  "selectedEvent (setView c z s) = selectedEvent s"
  "locationSearch (setView c z s) = locationSearch s"
  "isRSVPOpen (setView c z s) = isRSVPOpen s"
  "lang_st (setView c z s) = lang_st s"
  "filters (setView c z s) = filters s"
  "filteredMemo (setView c z s) = filteredMemo s"
  "renderedAt (setView c z s) = renderedAt s"
  by (simp_all add: setView_def split: option.splits)

lemma reconcile_fields [simp]:
  "selectedEvent (reconcile fit fe s) = selectedEvent s"
  "isRSVPOpen (reconcile fit fe s) = isRSVPOpen s"
  "renderedAt (reconcile fit fe s) = renderedAt s"
  "filteredMemo (reconcile fit fe s) = filteredMemo s"
  by (cases "mapRef s"; simp add: reconcile_def Let_def split: prod.splits)+

lemma render_fields [simp]:
  "selectedEvent (render lc EVENTS clk b s) = selectedEvent s"
  "isRSVPOpen (render lc EVENTS clk b s) = isRSVPOpen s"
  "mapRef (render lc EVENTS clk b s) = mapRef s"
  "renderedAt (render lc EVENTS clk b s) = clk"
  by (simp_all add: render_def)

lemma after_handler_fields [simp]:
  "isRSVPOpen (after_handler fit lc EVENTS clk b old s) = isRSVPOpen s"
  "selectedEvent (after_handler fit lc EVENTS clk b old s) = selectedEvent s"
  by (simp_all add: after_handler_def reconcile_effect_def Let_def)

lemma reconcile_setView:
  assumes "selectedEvent s \<noteq> None"
  shows "reconcile fit fe (setView c z s) = setView c z (reconcile fit fe s)"
  using assms
  by (cases "mapRef s") (auto simp: reconcile_def setView_def fold_add_marker Let_def)

lemma render_setView:
  "render lc EVENTS clk b (setView c z s) = setView c z (render lc EVENTS clk b s)"
  by (cases "mapRef s") (simp_all add: render_def setView_def)

lemma after_handler_setView:
  assumes "selectedEvent t \<noteq> None"
  shows "after_handler fit lc EVENTS clk b old (setView c z t)
       = setView c z (after_handler fit lc EVENTS clk b old t)"
  using assms
  by (simp add: after_handler_def reconcile_effect_def render_setView reconcile_setView Let_def)

lemma after_handler_viewport_kept:
  assumes "selectedEvent t \<noteq> None"
  shows "map_option viewport (mapRef (after_handler fit lc EVENTS clk b old t))
       = map_option viewport (mapRef t)"
  using assms
  by (simp add: after_handler_def reconcile_effect_def reconcile_viewport_kept Let_def)

lemma setView_fixpoint:
  assumes "mapRef t = Some m"
  shows "(setView c z t = t) = (viewport m = \<lparr>center = c, zoom = z\<rparr>)"
proof
  assume "setView c z t = t"
  then have "mapRef (setView c z t) = mapRef t" by simp
  with assms have "m\<lparr>viewport := \<lparr>center = c, zoom = z\<rparr>\<rparr> = m"
    by (simp add: setView_def)
  then have "viewport (m\<lparr>viewport := \<lparr>center = c, zoom = z\<rparr>\<rparr>) = viewport m"
    by simp
  then show "viewport m = \<lparr>center = c, zoom = z\<rparr>"
    by simp
next
  assume "viewport m = \<lparr>center = c, zoom = z\<rparr>"
  then have "m\<lparr>viewport := \<lparr>center = c, zoom = z\<rparr>\<rparr> = m"
    by (cases m) simp
  with assms show "setView c z t = t"
    by (simp add: setView_def)
qed

text \<open>
  C2, as amended. When both the marker and the list entry of an event can be
  clicked, either click selects the event. The click on the marker leaves the
  viewport as it was; the click on the list entry also centers the map on the
  event at zoom 14. The state after the list click is the state after the marker
  click with that viewport, so the two resulting states are identical exactly
  when the map was already centered on the event at zoom 14.
\<close>

theorem selection_paths_differ_in_viewport:
  assumes "rendered s (ClickMarker e)" "rendered s (ClickListEntry e)"
  shows "step fit lc EVENTS clk (ClickListEntry e) s
           = setView (lat e, lng e) 14 (step fit lc EVENTS clk (ClickMarker e) s)
       \<and> selectedEvent (step fit lc EVENTS clk (ClickMarker e) s) = Some e
       \<and> selectedEvent (step fit lc EVENTS clk (ClickListEntry e) s) = Some e
       \<and> map_option viewport (mapRef (step fit lc EVENTS clk (ClickMarker e) s))
           = map_option viewport (mapRef s)
       \<and> map_option viewport (mapRef (step fit lc EVENTS clk (ClickListEntry e) s))
           = Some \<lparr>center = (lat e, lng e), zoom = 14\<rparr>
       \<and> (step fit lc EVENTS clk (ClickListEntry e) s = step fit lc EVENTS clk (ClickMarker e) s)
           = (map_option viewport (mapRef s) = Some \<lparr>center = (lat e, lng e), zoom = 14\<rparr>)"
proof -
  let ?mk = "step fit lc EVENTS clk (ClickMarker e) s"
  let ?li = "step fit lc EVENTS clk (ClickListEntry e) s"
  from assms(1) obtain m where m: "mapRef s = Some m"
    by (auto split: option.splits)
  have mk: "?mk = after_handler fit lc EVENTS clk False s (marker_click e s)"
    using assms(1) by (simp add: step_def)
  have sel: "selectedEvent (marker_click e s) \<noteq> None"
    by (simp add: marker_click_def)
  have "?li = after_handler fit lc EVENTS clk False s (setView (lat e, lng e) 14 (marker_click e s))"
    using assms(2) by (simp add: step_def handleSelectEvent_def marker_click_def)
  then have 1: "?li = setView (lat e, lng e) 14 ?mk"
    using sel by (simp add: after_handler_setView mk)
  have 2: "selectedEvent ?mk = Some e"
    by (simp add: mk marker_click_def)
  have 3: "selectedEvent ?li = Some e"
    by (simp add: 1 2)
  have "map_option viewport (mapRef ?mk) = map_option viewport (mapRef (marker_click e s))"
    unfolding mk using sel by (rule after_handler_viewport_kept)
  then have 4: "map_option viewport (mapRef ?mk) = map_option viewport (mapRef s)"
    by (simp add: marker_click_def)
  with m obtain m' where m': "mapRef ?mk = Some m'" "viewport m' = viewport m"
    by (cases "mapRef ?mk") auto
  have 5: "map_option viewport (mapRef ?li) = Some \<lparr>center = (lat e, lng e), zoom = 14\<rparr>"
    by (simp add: 1 setView_def m')
  have 6: "(?li = ?mk) = (map_option viewport (mapRef s) = Some \<lparr>center = (lat e, lng e), zoom = 14\<rparr>)"
    unfolding 1 using setView_fixpoint [OF m'(1), of "(lat e, lng e)" 14] m m'(2) by simp
  from 1 2 3 4 5 6 show ?thesis by blast
qed

theorem selection_paths_witness:
  "rendered (mounted_app example_fit ascii_lower example_catalog noon_feb_1) (ClickMarker fair_b)
   \<and> rendered (mounted_app example_fit ascii_lower example_catalog noon_feb_1)
       (ClickListEntry fair_b)
   \<and> step example_fit ascii_lower example_catalog noon_feb_1 (ClickListEntry fair_b)
        (mounted_app example_fit ascii_lower example_catalog noon_feb_1)
      = setView (33.8358, - 118.3267) 14
          (step example_fit ascii_lower example_catalog noon_feb_1 (ClickMarker fair_b)
             (mounted_app example_fit ascii_lower example_catalog noon_feb_1))"
proof -
  let ?m = "mounted_app example_fit ascii_lower example_catalog noon_feb_1"
  have r1: "rendered ?m (ClickMarker fair_b)"
    by code_simp
  have r2: "rendered ?m (ClickListEntry fair_b)"
    by code_simp
  have c: "(lat fair_b, lng fair_b) = (33.8358, - 118.3267)"
    by (simp add: fair_b_def)
  from selection_paths_differ_in_viewport
    [OF r1 r2, of example_fit ascii_lower example_catalog noon_feb_1] c
  have "step example_fit ascii_lower example_catalog noon_feb_1 (ClickListEntry fair_b) ?m
      = setView (33.8358, - 118.3267) 14
          (step example_fit ascii_lower example_catalog noon_feb_1 (ClickMarker fair_b) ?m)"
    by metis
  with r1 r2 show ?thesis by blast
qed

text \<open>
  C2 as stated fails: from the state after mounting, with the example catalog,
  both controls of the event \<open>fair_b\<close> can be clicked; the click on its marker
  keeps the fitted viewport, the click on its list entry moves the viewport to
  the event at zoom 14, and the two resulting states differ.
\<close>

theorem selection_paths_counterexample:
  "rendered (mounted_app example_fit ascii_lower example_catalog noon_feb_1) (ClickMarker fair_b)
   \<and> rendered (mounted_app example_fit ascii_lower example_catalog noon_feb_1)
       (ClickListEntry fair_b)
   \<and> map_option viewport
        (mapRef (step example_fit ascii_lower example_catalog noon_feb_1 (ClickMarker fair_b)
           (mounted_app example_fit ascii_lower example_catalog noon_feb_1)))
       = Some \<lparr>center = (33.80075, - 118.2472), zoom = 11\<rparr>
   \<and> map_option viewport
        (mapRef (step example_fit ascii_lower example_catalog noon_feb_1 (ClickListEntry fair_b)
           (mounted_app example_fit ascii_lower example_catalog noon_feb_1)))
       = Some \<lparr>center = (33.8358, - 118.3267), zoom = 14\<rparr>
   \<and> step example_fit ascii_lower example_catalog noon_feb_1 (ClickMarker fair_b)
         (mounted_app example_fit ascii_lower example_catalog noon_feb_1)
       \<noteq> step example_fit ascii_lower example_catalog noon_feb_1 (ClickListEntry fair_b)
         (mounted_app example_fit ascii_lower example_catalog noon_feb_1)"
  by code_simp

section \<open>The RSVP gate\<close>






section \<open>The states the component reaches keep their markers tracked\<close>

text \<open>
  For a catalog with distinct ids, the state after mounting and every state
  reached from it by user actions has a memoised list that is a filtered list of
  the catalog and a map that carries exactly the tracked markers: the
  conditions under which the reconciliation pass was described above.
\<close>

lemma reconcile_tracked:
  assumes "markers_tracked s" "distinct (map id_ev fe)"
  shows "markers_tracked (reconcile fit fe s)"
proof (cases "mapRef s")
  case None
  then show ?thesis by (simp add: reconcile_def markers_tracked_def)
next
  case (Some m)
  from reconcile_result [OF Some assms, of fit] show ?thesis
    by (simp add: markers_tracked_def mset_dict_values comp_def)
qed

lemma handler_tracked:
  "markers_tracked (handler a s) = markers_tracked s \<and> filteredMemo (handler a s) = filteredMemo s"
  by (cases a)
     (auto simp: markers_tracked_def marker_click_def handleSelectEvent_def setView_def
           split: option.splits)

lemma step_keeps_markers_tracked:
  assumes d: "distinct (map id_ev EVENTS)"
    and f: "\<exists>fs q c. filteredMemo s = filteredEvents lc EVENTS fs q c"
    and t: "markers_tracked s"
  shows "(\<exists>fs q c. filteredMemo (step fit lc EVENTS clk a s) = filteredEvents lc EVENTS fs q c)
       \<and> markers_tracked (step fit lc EVENTS clk a s)"
proof -
  let ?h = "handler a s"
  have h: "markers_tracked ?h" "\<exists>fs q c. filteredMemo ?h = filteredEvents lc EVENTS fs q c"
    using f t by (simp_all add: handler_tracked)
  have r: "markers_tracked (render lc EVENTS clk b ?h)
      \<and> (\<exists>fs q c. filteredMemo (render lc EVENTS clk b ?h) = filteredEvents lc EVENTS fs q c)" for b
  proof -
    have "markers_tracked (render lc EVENTS clk b ?h) = markers_tracked ?h"
      by (simp add: render_def markers_tracked_def split: option.splits)
    moreover have "\<exists>fs q c. filteredMemo (render lc EVENTS clk b ?h) = filteredEvents lc EVENTS fs q c"
      using h(2) by (cases b) (auto simp: render_def)
    ultimately show ?thesis using h(1) by simp
  qed
  have e: "markers_tracked (reconcile_effect fit (render lc EVENTS clk b ?h))
      \<and> (\<exists>fs q c. filteredMemo (reconcile_effect fit (render lc EVENTS clk b ?h))
            = filteredEvents lc EVENTS fs q c)" for b
  proof -
    from r [of b] obtain fs q c
      where m: "filteredMemo (render lc EVENTS clk b ?h) = filteredEvents lc EVENTS fs q c"
      by blast
    then have "distinct (map id_ev (filteredMemo (render lc EVENTS clk b ?h)))"
      using d by (simp add: distinct_ids_filteredEvents)
    with r [of b] have "markers_tracked (reconcile_effect fit (render lc EVENTS clk b ?h))"
      unfolding reconcile_effect_def by (intro reconcile_tracked) simp_all
    with m show ?thesis
      by (auto simp: reconcile_effect_def)
  qed
  show ?thesis
    using f t h r e by (simp add: step_def after_handler_def Let_def)
qed

lemma mounted_markers_tracked:
  assumes "distinct (map id_ev EVENTS)"
  shows "(\<exists>fs q c. filteredMemo (mounted_app fit lc EVENTS clk) = filteredEvents lc EVENTS fs q c)
       \<and> markers_tracked (mounted_app fit lc EVENTS clk)
       \<and> mapRef (mounted_app fit lc EVENTS clk) \<noteq> None"
proof -
  let ?s = "init_map (initial_app lc EVENTS clk)"
  have m: "filteredMemo ?s
      = filteredEvents lc EVENTS \<lparr>month = [], program_f = [], showPast = False\<rparr> [] clk"
    by (simp add: init_map_def initial_app_def)
  have t: "markers_tracked ?s"
    by (simp add: markers_tracked_def dict_values_def init_map_def initial_app_def)
  have "distinct (map id_ev (filteredMemo ?s))"
    unfolding m using assms by (rule distinct_ids_filteredEvents)
  with t have "markers_tracked (reconcile fit (filteredMemo ?s) ?s)"
    by (rule reconcile_tracked)
  moreover have "mapRef (reconcile fit (filteredMemo ?s) ?s) \<noteq> None"
    by (simp add: reconcile_def init_map_def initial_app_def Let_def split: prod.splits)
  ultimately show ?thesis
    using m by (auto simp: mounted_app_def reconcile_effect_def)
qed

lemma run_keeps_markers_tracked:
  assumes "distinct (map id_ev EVENTS)"
    and "\<exists>fs q c. filteredMemo s = filteredEvents lc EVENTS fs q c"
    and "markers_tracked s"
  shows "(\<exists>fs q c. filteredMemo (run fit lc EVENTS as s) = filteredEvents lc EVENTS fs q c)
       \<and> markers_tracked (run fit lc EVENTS as s)"
  using assms(2,3)
proof (induction as arbitrary: s)
  case Nil
  then show ?case by simp
next
  case (Cons ca as)
  obtain clk a where ca: "ca = (clk, a)" by (cases ca)
  from step_keeps_markers_tracked [OF assms(1) Cons.prems, of fit clk a]
  show ?case
    unfolding ca by (simp add: Cons.IH)
qed

end
